theory Spec2Isabelle
  imports Main
begin

section \<open>The history tracker of useOutlineHistory.js\<close>

text \<open>
  The hook keeps one \<open>historyState\<close> object (\<open>current\<close>, \<open>undoStack\<close>, \<open>redoStack\<close>) and
  reacts to editor updates (\<open>applyChange\<close>) and to undo and redo requests. View models are
  JavaScript objects: they are compared by identity (\<open>viewModel === current\<close>), one object
  may be referenced from several places, and \<open>markDirty\<close> mutates it. They are therefore
  kept in a store indexed by references; \<open>current\<close> and the two stacks hold references.
  Every JavaScript reference points to an object, so the store is a total function.
\<close>

subsection \<open>Nodes, selections and view models\<close>

type_synonym node_key = string

text \<open>
  A node of the editor. The source reads \<open>__key\<close> and \<open>__flags\<close> of any node and
  \<open>__text\<close> only after \<open>isTextNode\<close> has answered true, so the text payload belongs to
  the text variant alone. Flags are a JavaScript number compared with \<open>===\<close>.
\<close>

datatype node =
    TextNode (node_key: node_key) (node_flags: int) (node_text: string)
  | BlockNode (node_key: node_key) (node_flags: int)

text \<open>
  Modelled from the spec: \<open>isTextNode\<close> is imported from the outline package, which is not
  part of the sources at hand. The spec calls it the test whether a node is text-bearing.
\<close>

fun isTextNode :: "node \<Rightarrow> bool" where
  "isTextNode (TextNode k f t) = True"
| "isTextNode (BlockNode k f) = False"

text \<open>
  A selection: the source reads \<open>anchorKey\<close> and \<open>anchorOffset\<close>. The offset is an integer,
  not a natural number: \<open>anchorOffset - 1\<close> is \<open>-1\<close> at offset zero and must not be
  truncated.
\<close>

record selection =
  anchorKey :: node_key
  anchorOffset :: int

text \<open>
  Modelled from the spec: the class \<open>ViewModel\<close> belongs to the outline package, which is
  not part of the sources at hand. The spec's snapshot exposes a dirty flag, the dirty
  nodes, a node map from identifiers to nodes and a selection that may be absent. The
  fields \<open>nodeMap\<close> and \<open>selection\<close> are the source's \<open>_nodeMap\<close> and \<open>_selection\<close>;
  \<open>dirtyNodes\<close> is what \<open>getDirtyNodes()\<close> returns and \<open>dirty\<close> what \<open>isDirty()\<close> returns.
\<close>

record viewModel =
  nodeMap :: "node_key \<rightharpoonup> node"
  selection :: "selection option"
  dirtyNodes :: "node list"
  dirty :: bool

text \<open>Modelled from the spec: \<open>ViewModel.isDirty\<close> of the outline package, the dirty flag.\<close>

definition isDirty :: "viewModel \<Rightarrow> bool" where
  "isDirty vm = dirty vm"

text \<open>
  Modelled from the spec: \<open>ViewModel.getDirtyNodes\<close> of the outline package, the array of
  the nodes changed in this snapshot.
\<close>

definition getDirtyNodes :: "viewModel \<Rightarrow> node list" where
  "getDirtyNodes vm = dirtyNodes vm"

text \<open>
  Modelled from the spec: \<open>ViewModel.hasDirtyNodes\<close> of the outline package; a snapshot has
  dirty nodes when its list of dirty nodes is not empty.
\<close>

definition hasDirtyNodes :: "viewModel \<Rightarrow> bool" where
  "hasDirtyNodes vm = (dirtyNodes vm \<noteq> [])"

text \<open>
  Modelled from the spec: \<open>ViewModel.markDirty\<close> of the outline package; it marks the
  snapshot dirty and changes nothing else.
\<close>

definition markDirty :: "viewModel \<Rightarrow> viewModel" where
  "markDirty vm = vm\<lparr>dirty := True\<rparr>"

subsection \<open>The merge decision\<close>

text \<open>The constants \<open>MERGE = 0\<close>, \<open>NO_MERGE = 1\<close> and \<open>DISCARD = 2\<close> of the source.\<close>

datatype mergeAction = MERGE | NO_MERGE | DISCARD

type_synonym vm_ref = nat

text \<open>
  \<open>getMergeAction\<close> reads the two view models through the store \<open>h\<close> and the module-level
  set \<open>viewModelsWithoutHistory\<close> (here \<open>wh\<close>), from which it deletes \<open>nextViewModel\<close> when
  it finds it there; the set after the call is the second component of the result. Every
  path of the source that does not return earlier ends in the final \<open>return NO_MERGE\<close>;
  here each of them is an \<open>else\<close> branch of its own.
\<close>

definition getMergeAction ::
  "(vm_ref \<Rightarrow> viewModel) \<Rightarrow> vm_ref set \<Rightarrow> vm_ref option \<Rightarrow> vm_ref
     \<Rightarrow> mergeAction \<times> vm_ref set"
where
  "getMergeAction h wh prevViewModel nextViewModel =
    (if nextViewModel \<in> wh then (MERGE, wh - {nextViewModel})
     else case prevViewModel of
       None \<Rightarrow> (NO_MERGE, wh)
     | Some prev \<Rightarrow>
         if \<not> hasDirtyNodes (h nextViewModel) then (DISCARD, wh)
         else
           let dirtyNodes = getDirtyNodes (h nextViewModel) in
           if length dirtyNodes = 1 then
             let prevNodeMap = nodeMap (h prev);
                 nextDirtyNode = dirtyNodes ! 0;
                 prevDirtyNodeKey = node_key nextDirtyNode
             in case prevNodeMap prevDirtyNodeKey of
                  None \<Rightarrow> (NO_MERGE, wh)
                | Some prevDirtyNode \<Rightarrow>
                    if isTextNode prevDirtyNode \<and> isTextNode nextDirtyNode \<and>
                       node_flags prevDirtyNode = node_flags nextDirtyNode
                    then
                      let prevText = node_text prevDirtyNode;
                          nextText = node_text nextDirtyNode
                      in if prevText = '''' then (NO_MERGE, wh)
                         else
                           let textDiff = int (length nextText) - int (length prevText) in
                           if textDiff = 0 then (MERGE, wh)
                           else if textDiff = - 1 \<or> textDiff = 1 then
                             (case selection (h nextViewModel) of
                                None \<Rightarrow> (MERGE, wh)
                              | Some sel \<Rightarrow>
                                  (case selection (h prev) of
                                     None \<Rightarrow> (MERGE, wh)
                                   | Some prevSelection \<Rightarrow>
                                       if anchorKey sel \<noteq> anchorKey prevSelection
                                       then (NO_MERGE, wh)
                                       else if anchorOffset prevSelection = anchorOffset sel - 1
                                       then (MERGE, wh)
                                       else (NO_MERGE, wh)))
                           else (NO_MERGE, wh)
                    else (NO_MERGE, wh)
           else (NO_MERGE, wh))"

subsection \<open>The history state and its operations\<close>

text \<open>
  A JavaScript array used as a stack: \<open>push\<close> appends at the end and \<open>pop\<close> removes the
  last element, so the most recent entry is the last one. \<open>pop\<close> on an empty array returns
  \<open>undefined\<close>, here \<open>None\<close>.
\<close>

definition push :: "'a list \<Rightarrow> 'a \<Rightarrow> 'a list" where
  "push xs x = xs @ [x]"

definition pop :: "'a list \<Rightarrow> 'a option \<times> 'a list" where
  "pop xs = (if xs = [] then (None, []) else (Some (last xs), butlast xs))"

text \<open>
  The state the hook works on: the three fields of \<open>historyState\<close>, the store of view
  models, the set \<open>viewModelsWithoutHistory\<close>, and the view models handed to
  \<open>editor.setViewModel\<close> so far, oldest first. The closure variables \<open>undoStack\<close> and
  \<open>redoStack\<close> of the effect always denote the arrays in \<open>historyState\<close>: \<open>applyChange\<close>
  assigns the fresh empty array to both at once, and \<open>setHistoryState\<close> splices the arrays
  in place.
\<close>

record state =
  current :: "vm_ref option"
  redoStack :: "vm_ref list"
  undoStack :: "vm_ref list"
  heap :: "vm_ref \<Rightarrow> viewModel"
  viewModelsWithoutHistory :: "vm_ref set"
  setViewModelCalls :: "vm_ref list"

text \<open>The state built by \<open>useMemo\<close>: nothing current and two empty stacks.\<close>

definition initialState :: "(vm_ref \<Rightarrow> viewModel) \<Rightarrow> vm_ref set \<Rightarrow> state" where
  "initialState h wh =
    \<lparr>current = None, redoStack = [], undoStack = [], heap = h,
     viewModelsWithoutHistory = wh, setViewModelCalls = []\<rparr>"

text \<open>
  \<open>applyChange\<close>, the listener for editor updates. The merge decision is taken only for a
  view model that is not the current one and is not dirty.
\<close>

definition applyChange :: "state \<Rightarrow> vm_ref \<Rightarrow> state" where
  "applyChange s viewModel =
    (if Some viewModel = current s then s
     else if \<not> isDirty (heap s viewModel) then
       (case getMergeAction (heap s) (viewModelsWithoutHistory s) (current s) viewModel of
          (mergeAction, wh) \<Rightarrow>
            if mergeAction = NO_MERGE then
              s\<lparr>redoStack := (if length (redoStack s) \<noteq> 0 then [] else redoStack s),
                undoStack := (case current s of
                                None \<Rightarrow> undoStack s
                              | Some c \<Rightarrow> push (undoStack s) c),
                viewModelsWithoutHistory := wh,
                current := Some viewModel\<rparr>
            else if mergeAction = DISCARD then s\<lparr>viewModelsWithoutHistory := wh\<rparr>
            else s\<lparr>viewModelsWithoutHistory := wh, current := Some viewModel\<rparr>)
     else s\<lparr>current := Some viewModel\<rparr>)"

text \<open>
  Calling a method on \<open>undefined\<close> raises a \<open>TypeError\<close>; it is the only way \<open>undo\<close> and
  \<open>redo\<close> could fail, namely if \<open>pop\<close> found its array empty.
\<close>

datatype error = TypeError

text \<open>
  \<open>undo\<close>. Were the first \<open>pop\<close> to return \<open>undefined\<close>, the array would be empty, the
  second \<open>pop\<close> would return \<open>undefined\<close> as well and \<open>viewModel.markDirty()\<close> would raise;
  the model raises at the first \<open>pop\<close> already.
\<close>

definition undo :: "state \<Rightarrow> error + state" where
  "undo s =
    (let undoStackLength = length (undoStack s) in
     if undoStackLength \<noteq> 0 then
       (case (case current s of
                None \<Rightarrow> Inr s
              | Some c \<Rightarrow>
                  if undoStackLength \<noteq> 1 \<and> \<not> hasDirtyNodes (heap s c) then
                    (case pop (undoStack s) of
                       (None, us) \<Rightarrow> Inl TypeError
                     | (Some c', us) \<Rightarrow>
                         Inr (s\<lparr>undoStack := us, redoStack := push (redoStack s) c'\<rparr>))
                  else Inr (s\<lparr>redoStack := push (redoStack s) c\<rparr>)) of
          Inl e \<Rightarrow> Inl e
        | Inr s1 \<Rightarrow>
            (case pop (undoStack s1) of
               (None, us) \<Rightarrow> Inl TypeError
             | (Some viewModel, us) \<Rightarrow>
                 Inr (s1\<lparr>undoStack := us,
                         current := Some viewModel,
                         heap := (heap s1)(viewModel := markDirty (heap s1 viewModel)),
                         setViewModelCalls := setViewModelCalls s1 @ [viewModel]\<rparr>)))
     else Inr s)"

definition redo :: "state \<Rightarrow> error + state" where
  "redo s =
    (if length (redoStack s) \<noteq> 0 then
       (let s1 = (case current s of
                    None \<Rightarrow> s
                  | Some c \<Rightarrow> s\<lparr>undoStack := push (undoStack s) c\<rparr>)
        in case pop (redoStack s1) of
             (None, rs) \<Rightarrow> Inl TypeError
           | (Some viewModel, rs) \<Rightarrow>
               Inr (s1\<lparr>redoStack := rs,
                       current := Some viewModel,
                       heap := (heap s1)(viewModel := markDirty (heap s1 viewModel)),
                       setViewModelCalls := setViewModelCalls s1 @ [viewModel]\<rparr>))
     else Inr s)"

text \<open>
  \<open>setHistoryState\<close> replaces the contents of both arrays by the elements of the arrays it
  is given and leaves \<open>current\<close> alone.
\<close>

definition setHistoryState :: "state \<Rightarrow> vm_ref list \<Rightarrow> vm_ref list \<Rightarrow> state" where
  "setHistoryState s newUndoStack newRedoStack =
    s\<lparr>undoStack := newUndoStack, redoStack := newRedoStack\<rparr>"

subsection \<open>Sequences of operations\<close>

text \<open>
  The operations the hook offers to its surroundings: an editor update, an undo request,
  a redo request, and the setter it returns.
\<close>

datatype operation =
    RecordUpdate vm_ref
  | Undo
  | Redo
  | SetStacks "vm_ref list" "vm_ref list"

fun step :: "state \<Rightarrow> operation \<Rightarrow> error + state" where
  "step s (RecordUpdate viewModel) = Inr (applyChange s viewModel)"
| "step s Undo = undo s"
| "step s Redo = redo s"
| "step s (SetStacks u r) = Inr (setHistoryState s u r)"

fun run :: "state \<Rightarrow> operation list \<Rightarrow> error + state" where
  "run s [] = Inr s"
| "run s (x # xs) = (case step s x of Inl e \<Rightarrow> Inl e | Inr s' \<Rightarrow> run s' xs)"

subsection \<open>Example snapshots\<close>

text \<open>
  A text node \<open>n1\<close> holding \<open>ab\<close>, then \<open>abc\<close>, then nothing; a block node; and view
  models around them. In \<open>exampleHeap\<close> the references 0 to 3 point to the view models
  with dirty nodes, reference 5 to a dirty view model and every other reference to a
  view model with no dirty node.
\<close>

definition nodeAB :: node where
  "nodeAB = TextNode ''n1'' 0 ''ab''"

definition nodeABC :: node where
  "nodeABC = TextNode ''n1'' 0 ''abc''"

definition nodeEmpty :: node where
  "nodeEmpty = TextNode ''n1'' 0 ''''"

definition nodeBlock :: node where
  "nodeBlock = BlockNode ''p1'' 0"

definition vmAB :: viewModel where
  "vmAB = \<lparr>nodeMap = [''n1'' \<mapsto> nodeAB],
           selection = Some \<lparr>anchorKey = ''n1'', anchorOffset = 2\<rparr>,
           dirtyNodes = [nodeAB], dirty = False\<rparr>"

definition vmABC :: viewModel where
  "vmABC = \<lparr>nodeMap = [''n1'' \<mapsto> nodeABC],
            selection = Some \<lparr>anchorKey = ''n1'', anchorOffset = 3\<rparr>,
            dirtyNodes = [nodeABC], dirty = False\<rparr>"

definition vmEmptyText :: viewModel where
  "vmEmptyText = \<lparr>nodeMap = [''n1'' \<mapsto> nodeEmpty],
                  selection = Some \<lparr>anchorKey = ''n1'', anchorOffset = 0\<rparr>,
                  dirtyNodes = [nodeEmpty], dirty = False\<rparr>"

definition vmBlock :: viewModel where
  "vmBlock = \<lparr>nodeMap = [''n1'' \<mapsto> nodeABC, ''p1'' \<mapsto> nodeBlock],
              selection = None,
              dirtyNodes = [nodeBlock], dirty = False\<rparr>"

definition vmClean :: viewModel where
  "vmClean = \<lparr>nodeMap = [''n1'' \<mapsto> nodeABC],
              selection = None,
              dirtyNodes = [], dirty = False\<rparr>"

definition exampleHeap :: "vm_ref \<Rightarrow> viewModel" where
  "exampleHeap =
    (\<lambda>r. vmClean)(0 := vmAB, 1 := vmABC, 2 := vmEmptyText, 3 := vmBlock,
                   5 := markDirty vmBlock)"

text \<open>
  History states over \<open>exampleHeap\<close>: one with a current view model and nothing else,
  one whose current view model (reference 4) has no dirty node, one whose current view
  model (reference 1) has a dirty node, and one with no current view model, as
  \<open>setHistoryState\<close> leaves it when called first.
\<close>

definition stateCurrentOnly :: state where
  "stateCurrentOnly = (initialState exampleHeap {})\<lparr>current := Some 0\<rparr>"

definition stateCleanCurrent :: state where
  "stateCleanCurrent =
    (initialState exampleHeap {})\<lparr>current := Some 4, undoStack := [0, 3]\<rparr>"

definition stateDirtyNodeCurrent :: state where
  "stateDirtyNodeCurrent =
    (initialState exampleHeap {})\<lparr>current := Some 1, undoStack := [0, 3]\<rparr>"

definition stateNoCurrent :: state where
  "stateNoCurrent =
    (initialState exampleHeap {})\<lparr>undoStack := [0, 3], redoStack := [1]\<rparr>"

subsection \<open>Disciplined use of the history\<close>

text \<open>
  Nothing in the source keeps a view model from being held twice. The operations below
  are the ones that cannot introduce a second reference: an update whose view model is
  in neither stack, and a \<open>setHistoryState\<close> whose two arrays have no element twice, share
  no element and do not contain the current view model. \<open>undo\<close> and \<open>redo\<close> only move
  references. \<open>separated\<close> is the resulting invariant.
\<close>

fun admissible :: "state \<Rightarrow> operation \<Rightarrow> bool" where
  "admissible s (RecordUpdate viewModel) =
     (viewModel \<notin> set (undoStack s) \<and> viewModel \<notin> set (redoStack s))"
| "admissible s (SetStacks u r) =
     (distinct (u @ r) \<and> (case current s of None \<Rightarrow> True | Some c \<Rightarrow> c \<notin> set (u @ r)))"
| "admissible s Undo = True"
| "admissible s Redo = True"

fun admissible_run :: "state \<Rightarrow> operation list \<Rightarrow> bool" where
  "admissible_run s [] = True"
| "admissible_run s (x # xs) =
     (admissible s x \<and>
      (case step s x of Inl e \<Rightarrow> False | Inr s' \<Rightarrow> admissible_run s' xs))"

definition separated :: "state \<Rightarrow> bool" where
  "separated s =
    (distinct (undoStack s @ redoStack s) \<and>
     (case current s of
        None \<Rightarrow> True
      | Some c \<Rightarrow> c \<notin> set (undoStack s) \<and> c \<notin> set (redoStack s)))"

section \<open>Properties of the merge decision\<close>

lemmas example_defs =
  nodeAB_def nodeABC_def nodeEmpty_def nodeBlock_def vmAB_def vmABC_def
  vmEmptyText_def vmBlock_def vmClean_def exampleHeap_def markDirty_def

text \<open>
  Claim C1. Let the previous snapshot be present and the next one not be exempt from
  history. If the next snapshot has exactly one dirty node, the previous snapshot's node
  map has a node under that node's key, both are text nodes with the same flags, the
  previous text is not empty, the two texts differ in length by exactly one, both
  snapshots have a selection with the same anchor key, and the next anchor offset is the
  previous one plus one, then \<open>getMergeAction\<close> returns \<open>MERGE\<close>.
\<close>

theorem getMergeAction_contiguous_keystroke:
  assumes "nextViewModel \<notin> wh"
    and "getDirtyNodes (h nextViewModel) = [nextDirtyNode]"
    and "nodeMap (h prev) (node_key nextDirtyNode) = Some prevDirtyNode"
    and "isTextNode prevDirtyNode" and "isTextNode nextDirtyNode"
    and "node_flags prevDirtyNode = node_flags nextDirtyNode"
    and "node_text prevDirtyNode \<noteq> ''''"
    and "length (node_text nextDirtyNode) = length (node_text prevDirtyNode) + 1
         \<or> length (node_text nextDirtyNode) + 1 = length (node_text prevDirtyNode)"
    and "selection (h nextViewModel) = Some sel"
    and "selection (h prev) = Some prevSelection"
    and "anchorKey sel = anchorKey prevSelection"
    and "anchorOffset sel = anchorOffset prevSelection + 1"
  shows "fst (getMergeAction h wh (Some prev) nextViewModel) = MERGE"
  using assms
  by (auto simp: getMergeAction_def hasDirtyNodes_def getDirtyNodes_def)

text \<open>The spec's example: \<open>ab\<close> becomes \<open>abc\<close> while the anchor moves from 2 to 3.\<close>

theorem getMergeAction_contiguous_keystroke_witness:
  "fst (getMergeAction exampleHeap {} (Some 0) 1) = MERGE"
  by (rule getMergeAction_contiguous_keystroke
        [where nextDirtyNode = nodeABC and prevDirtyNode = nodeAB
           and sel = "\<lparr>anchorKey = ''n1'', anchorOffset = 3\<rparr>"
           and prevSelection = "\<lparr>anchorKey = ''n1'', anchorOffset = 2\<rparr>"])
     (simp_all add: example_defs getDirtyNodes_def)

text \<open>
  Claim C5, as stated: whenever the next snapshot is not marked dirty and there is no
  previous snapshot, the decision is \<open>NO_MERGE\<close>. It fails for a next snapshot that is in
  \<open>viewModelsWithoutHistory\<close>: the membership test comes first and answers \<open>MERGE\<close>.
\<close>

theorem exempt_without_previous_merges:
  "\<not> isDirty (exampleHeap 4) \<and> fst (getMergeAction exampleHeap {4} None 4) = MERGE"
  by (simp add: getMergeAction_def example_defs isDirty_def)

text \<open>
  Claim C5, amended: when there is no previous snapshot and the next snapshot is not in
  \<open>viewModelsWithoutHistory\<close>, \<open>getMergeAction\<close> returns \<open>NO_MERGE\<close> (whatever the dirty flag
  of the next snapshot, which the function does not read).
\<close>

theorem getMergeAction_no_previous:
  assumes "nextViewModel \<notin> wh"
  shows "fst (getMergeAction h wh None nextViewModel) = NO_MERGE"
  using assms by (simp add: getMergeAction_def)

theorem getMergeAction_no_previous_witness:
  "(4::vm_ref) \<notin> {} \<and> \<not> isDirty (exampleHeap 4)
   \<and> fst (getMergeAction exampleHeap {} None 4) = NO_MERGE"
proof -
  have notin: "(4::vm_ref) \<notin> {}" by simp
  have clean: "\<not> isDirty (exampleHeap 4)" by (simp add: example_defs isDirty_def)
  from getMergeAction_no_previous [OF notin, of exampleHeap] notin clean
  show ?thesis by simp
qed

text \<open>
  Claim C6. Let the previous snapshot be present and the next one not be exempt from
  history. If the next snapshot has exactly one dirty node, the previous snapshot's node
  map has a text node with the same flags under that node's key, and the text of that
  previous node is the empty string, then \<open>getMergeAction\<close> returns \<open>NO_MERGE\<close>, whatever
  the selections and the text of the next node are.
\<close>

theorem getMergeAction_previous_text_empty:
  assumes "nextViewModel \<notin> wh"
    and "getDirtyNodes (h nextViewModel) = [nextDirtyNode]"
    and "nodeMap (h prev) (node_key nextDirtyNode) = Some prevDirtyNode"
    and "isTextNode prevDirtyNode"
    and "node_flags prevDirtyNode = node_flags nextDirtyNode"
    and "node_text prevDirtyNode = ''''"
  shows "fst (getMergeAction h wh (Some prev) nextViewModel) = NO_MERGE"
  using assms
  by (auto simp: getMergeAction_def hasDirtyNodes_def getDirtyNodes_def Let_def
           split: option.splits)

text \<open>Typing \<open>abc\<close> into the emptied node \<open>n1\<close> starts a new entry.\<close>

theorem getMergeAction_previous_text_empty_witness:
  "fst (getMergeAction exampleHeap {} (Some 2) 1) = NO_MERGE"
  by (rule getMergeAction_previous_text_empty
        [where nextDirtyNode = nodeABC and prevDirtyNode = nodeEmpty])
     (simp_all add: example_defs getDirtyNodes_def)

section \<open>Properties of the history operations\<close>

lemmas state_defs =
  initialState_def stateCurrentOnly_def stateCleanCurrent_def stateDirtyNodeCurrent_def
  stateNoCurrent_def

subsection \<open>What \<open>pop\<close>, \<open>undo\<close> and \<open>redo\<close> compute\<close>

lemma pop_snoc: "pop (xs @ [x]) = (Some x, xs)"
  by (simp add: pop_def)

lemma undo_empty: "undoStack s = [] \<Longrightarrow> undo s = Inr s"
  by (simp add: undo_def)

lemma redo_empty: "redoStack s = [] \<Longrightarrow> redo s = Inr s"
  by (simp add: redo_def)

lemma undo_no_current:
  assumes "current s = None" and "undoStack s = us @ [v]"
  shows "undo s = Inr (s\<lparr>undoStack := us, current := Some v,
                          heap := (heap s)(v := markDirty (heap s v)),
                          setViewModelCalls := setViewModelCalls s @ [v]\<rparr>)"
  using assms by (simp add: undo_def pop_snoc)

lemma undo_skip:
  assumes "current s = Some c" and "undoStack s = us @ [v, t]"
    and "\<not> hasDirtyNodes (heap s c)"
  shows "undo s = Inr (s\<lparr>undoStack := us, redoStack := redoStack s @ [t],
                          current := Some v,
                          heap := (heap s)(v := markDirty (heap s v)),
                          setViewModelCalls := setViewModelCalls s @ [v]\<rparr>)"
proof -
  have "pop (undoStack s) = (Some t, us @ [v])"
    using assms(2) pop_snoc [of "us @ [v]" t] by simp
  then show ?thesis
    using assms by (simp add: undo_def pop_snoc push_def)
qed

lemma undo_plain:
  assumes "current s = Some c" and "undoStack s = us @ [v]"
    and "us = [] \<or> hasDirtyNodes (heap s c)"
  shows "undo s = Inr (s\<lparr>redoStack := redoStack s @ [c], undoStack := us,
                          current := Some v,
                          heap := (heap s)(v := markDirty (heap s v)),
                          setViewModelCalls := setViewModelCalls s @ [v]\<rparr>)"
  using assms by (auto simp: undo_def pop_snoc push_def)

lemma redo_nonempty:
  assumes "redoStack s = rs @ [v]"
  shows "redo s = Inr (s\<lparr>undoStack := (case current s of None \<Rightarrow> undoStack s
                                          | Some c \<Rightarrow> undoStack s @ [c]),
                          redoStack := rs, current := Some v,
                          heap := (heap s)(v := markDirty (heap s v)),
                          setViewModelCalls := setViewModelCalls s @ [v]\<rparr>)"
  using assms by (auto simp: redo_def pop_snoc push_def split: option.splits)

subsection \<open>No operation fails\<close>

lemma undo_total: "\<exists>s'. undo s = Inr s'"
proof (cases "undoStack s" rule: rev_cases)
  case Nil
  then show ?thesis by (simp add: undo_empty)
next
  case (snoc us t)
  show ?thesis
  proof (cases "current s")
    case None
    with snoc show ?thesis by (simp add: undo_no_current)
  next
    case (Some c)
    show ?thesis
    proof (cases "us = [] \<or> hasDirtyNodes (heap s c)")
      case True
      with Some snoc show ?thesis by (simp add: undo_plain)
    next
      case False
      then obtain us' v where "us = us' @ [v]" by (cases us rule: rev_cases) auto
      with False Some snoc show ?thesis by (simp add: undo_skip)
    qed
  qed
qed

lemma redo_total: "\<exists>s'. redo s = Inr s'"
  by (cases "redoStack s" rule: rev_cases) (simp_all add: redo_empty redo_nonempty)

lemma step_total: "\<exists>s'. step s x = Inr s'"
  by (cases x) (simp_all add: undo_total redo_total)

lemma run_total: "\<exists>s'. run s xs = Inr s'"
proof (induction xs arbitrary: s)
  case Nil
  show ?case by simp
next
  case (Cons x xs)
  obtain s1 where "step s x = Inr s1" using step_total by blast
  with Cons.IH [of s1] show ?case by simp
qed

text \<open>
  Claim C7. \<open>undo\<close> on an empty undo stack and \<open>redo\<close> on an empty redo stack return the
  state they were given, so \<open>current\<close> and both stacks are unchanged. No operation raises
  in any state, and every sequence of operations from the initial state runs to its end.
\<close>

theorem undo_redo_empty_total:
  "(undoStack s = [] \<longrightarrow> undo s = Inr s)
   \<and> (redoStack s = [] \<longrightarrow> redo s = Inr s)
   \<and> (\<exists>s'. step s x = Inr s')
   \<and> (\<exists>s'. run (initialState h wh) xs = Inr s')"
  by (simp add: undo_empty redo_empty step_total run_total)

theorem undo_redo_empty_total_witness:
  "undoStack stateCurrentOnly = [] \<and> undo stateCurrentOnly = Inr stateCurrentOnly
   \<and> redoStack stateCurrentOnly = [] \<and> redo stateCurrentOnly = Inr stateCurrentOnly
   \<and> (\<exists>s'. step stateCurrentOnly Undo = Inr s')
   \<and> (\<exists>s'. run (initialState exampleHeap {}) [RecordUpdate 0, Undo, Redo, Undo] = Inr s')"
proof -
  have u: "undoStack stateCurrentOnly = []" by (simp add: state_defs)
  have r: "redoStack stateCurrentOnly = []" by (simp add: state_defs)
  from undo_redo_empty_total
         [of stateCurrentOnly Undo exampleHeap "{}" "[RecordUpdate 0, Undo, Redo, Undo]"]
       u r
  show ?thesis by blast
qed

subsection \<open>Recording an update\<close>

text \<open>
  Claim C3, as stated: a next snapshot that is not marked dirty and has no dirty node is
  always discarded and leaves the history alone. It fails when there is no previous
  snapshot (the decision is \<open>NO_MERGE\<close> and the snapshot becomes current) and when the
  snapshot is in \<open>viewModelsWithoutHistory\<close> (the decision is \<open>MERGE\<close> and the snapshot
  becomes current): both tests come before the test for dirty nodes.
\<close>

theorem applyChange_clean_not_discarded:
  "\<not> isDirty (exampleHeap 4) \<and> \<not> hasDirtyNodes (exampleHeap 4)
   \<and> current (initialState exampleHeap {}) = None
   \<and> fst (getMergeAction exampleHeap {} None 4) = NO_MERGE
   \<and> current (applyChange (initialState exampleHeap {}) 4) = Some 4
   \<and> current (stateCurrentOnly\<lparr>viewModelsWithoutHistory := {4}\<rparr>) = Some 0
   \<and> fst (getMergeAction exampleHeap {4} (Some 0) 4) = MERGE
   \<and> current (applyChange (stateCurrentOnly\<lparr>viewModelsWithoutHistory := {4}\<rparr>) 4)
       = Some 4"
  by (simp add: getMergeAction_def applyChange_def state_defs example_defs isDirty_def
        hasDirtyNodes_def)

text \<open>
  Claim C3, amended: when a previous snapshot is present and the next snapshot is not in
  \<open>viewModelsWithoutHistory\<close>, is not marked dirty and has no dirty node, the decision is
  \<open>DISCARD\<close> and \<open>applyChange\<close> returns the state unchanged.
\<close>

theorem applyChange_discard:
  assumes "current s = Some prev"
    and "viewModel \<notin> viewModelsWithoutHistory s"
    and "\<not> isDirty (heap s viewModel)"
    and "\<not> hasDirtyNodes (heap s viewModel)"
  shows "fst (getMergeAction (heap s) (viewModelsWithoutHistory s) (current s) viewModel)
           = DISCARD
         \<and> applyChange s viewModel = s"
  using assms by (simp add: getMergeAction_def applyChange_def)

theorem applyChange_discard_witness:
  "current stateCurrentOnly = Some 0
   \<and> 4 \<notin> viewModelsWithoutHistory stateCurrentOnly
   \<and> \<not> isDirty (heap stateCurrentOnly 4)
   \<and> \<not> hasDirtyNodes (heap stateCurrentOnly 4)
   \<and> fst (getMergeAction (heap stateCurrentOnly) (viewModelsWithoutHistory stateCurrentOnly)
            (current stateCurrentOnly) 4) = DISCARD
   \<and> applyChange stateCurrentOnly 4 = stateCurrentOnly"
proof -
  have c: "current stateCurrentOnly = Some 0" by (simp add: state_defs)
  have e: "4 \<notin> viewModelsWithoutHistory stateCurrentOnly" by (simp add: state_defs)
  have d: "\<not> isDirty (heap stateCurrentOnly 4)"
    by (simp add: state_defs example_defs isDirty_def)
  have n: "\<not> hasDirtyNodes (heap stateCurrentOnly 4)"
    by (simp add: state_defs example_defs hasDirtyNodes_def)
  from applyChange_discard [OF c e d n] c e d n show ?thesis by blast
qed

text \<open>
  Claim C4. When \<open>applyChange\<close> classifies an update (the view model is not the current
  one and is not dirty) and the decision is \<open>NO_MERGE\<close>, the redo stack is empty
  afterwards, the undo stack has gained the previous current view model if there was
  one, and the recorded view model is current.
\<close>

theorem applyChange_no_merge:
  assumes "Some viewModel \<noteq> current s"
    and "\<not> isDirty (heap s viewModel)"
    and "fst (getMergeAction (heap s) (viewModelsWithoutHistory s) (current s) viewModel)
           = NO_MERGE"
  shows "redoStack (applyChange s viewModel) = []
         \<and> undoStack (applyChange s viewModel) =
             (case current s of None \<Rightarrow> undoStack s | Some c \<Rightarrow> undoStack s @ [c])
         \<and> current (applyChange s viewModel) = Some viewModel"
  using assms
  by (auto simp: applyChange_def push_def split: prod.splits option.splits)

text \<open>With reference 1 on the redo stack, recording view model 2 after view model 4 empties it.\<close>

theorem applyChange_no_merge_witness:
  "redoStack (stateNoCurrent\<lparr>current := Some 4\<rparr>) = [1]
   \<and> redoStack (applyChange (stateNoCurrent\<lparr>current := Some 4\<rparr>) 2) = []
   \<and> undoStack (applyChange (stateNoCurrent\<lparr>current := Some 4\<rparr>) 2) = [0, 3, 4]
   \<and> current (applyChange (stateNoCurrent\<lparr>current := Some 4\<rparr>) 2) = Some 2"
proof -
  let ?s = "stateNoCurrent\<lparr>current := Some 4\<rparr>"
  have a: "Some 2 \<noteq> current ?s" by simp
  have b: "\<not> isDirty (heap ?s 2)" by (simp add: state_defs example_defs isDirty_def)
  have c: "fst (getMergeAction (heap ?s) (viewModelsWithoutHistory ?s) (current ?s) 2)
             = NO_MERGE"
    by (simp add: getMergeAction_def state_defs example_defs hasDirtyNodes_def
          getDirtyNodes_def)
  have r: "redoStack ?s = [1]" by (simp add: state_defs)
  have u: "undoStack ?s = [0, 3]" by (simp add: state_defs)
  from applyChange_no_merge [OF a b c] r u show ?thesis by simp
qed

subsection \<open>Undo\<close>

text \<open>
  Claim C8. In a state with a non-empty undo stack and a current view model, \<open>undo\<close>
  succeeds. If the undo stack has more than one entry and the current view model has no
  dirty node, the top of the undo stack is removed and is what goes onto the redo stack;
  otherwise the current view model goes onto the redo stack. The top of the remaining
  undo stack is then removed, becomes current, is marked dirty in the store and is handed
  to \<open>editor.setViewModel\<close>.
\<close>

theorem undo_with_current:
  assumes "undoStack s \<noteq> []" and "current s = Some c"
  shows "undo s =
    (let skip = (1 < length (undoStack s) \<and> \<not> hasDirtyNodes (heap s c));
         pushed = (if skip then last (undoStack s) else c);
         remaining = (if skip then butlast (undoStack s) else undoStack s);
         restored = last remaining
     in Inr (s\<lparr>redoStack := redoStack s @ [pushed],
               undoStack := butlast remaining,
               current := Some restored,
               heap := (heap s)(restored := markDirty (heap s restored)),
               setViewModelCalls := setViewModelCalls s @ [restored]\<rparr>))"
proof -
  obtain us t where snoc: "undoStack s = us @ [t]"
    using assms(1) by (cases "undoStack s" rule: rev_cases) auto
  show ?thesis
  proof (cases "us = [] \<or> hasDirtyNodes (heap s c)")
    case True
    with assms(2) snoc undo_plain [OF assms(2) snoc True] show ?thesis
      by (auto simp: Let_def)
  next
    case False
    then obtain us' v where us: "us = us' @ [v]" by (cases us rule: rev_cases) auto
    from snoc us have u2: "undoStack s = us' @ [v, t]" by simp
    from False have clean: "\<not> hasDirtyNodes (heap s c)" by simp
    from undo_skip [OF assms(2) u2 clean] u2 clean show ?thesis
      by (simp add: Let_def butlast_append)
  qed
qed

text \<open>
  With undo stack \<open>[0, 3]\<close>: a current view model without dirty nodes is dropped, 3 goes
  to the redo stack and 0 is restored; a current view model with a dirty node goes to
  the redo stack itself and 3 is restored.
\<close>

theorem undo_with_current_witness:
  "undoStack stateCleanCurrent \<noteq> [] \<and> current stateCleanCurrent = Some 4
   \<and> (\<exists>s'. undo stateCleanCurrent = Inr s'
        \<and> redoStack s' = [3] \<and> undoStack s' = [] \<and> current s' = Some 0
        \<and> isDirty (heap s' 0) \<and> setViewModelCalls s' = [0])
   \<and> undoStack stateDirtyNodeCurrent \<noteq> [] \<and> current stateDirtyNodeCurrent = Some 1
   \<and> (\<exists>s'. undo stateDirtyNodeCurrent = Inr s'
        \<and> redoStack s' = [1] \<and> undoStack s' = [0] \<and> current s' = Some 3
        \<and> isDirty (heap s' 3) \<and> setViewModelCalls s' = [3])"
proof -
  have u: "undoStack stateCleanCurrent \<noteq> []" by (simp add: state_defs)
  have c: "current stateCleanCurrent = Some 4" by (simp add: state_defs)
  have n: "\<not> hasDirtyNodes (heap stateCleanCurrent 4)"
    by (simp add: state_defs example_defs hasDirtyNodes_def)
  have l: "undoStack stateCleanCurrent = [0, 3]" "redoStack stateCleanCurrent = []"
    "setViewModelCalls stateCleanCurrent = []"
    by (simp_all add: state_defs)
  from undo_with_current [OF u c] n l
  have skipped: "\<exists>s'. undo stateCleanCurrent = Inr s'
        \<and> redoStack s' = [3] \<and> undoStack s' = [] \<and> current s' = Some 0
        \<and> isDirty (heap s' 0) \<and> setViewModelCalls s' = [0]"
    by (simp add: Let_def isDirty_def markDirty_def)
  have u': "undoStack stateDirtyNodeCurrent \<noteq> []" by (simp add: state_defs)
  have c': "current stateDirtyNodeCurrent = Some 1" by (simp add: state_defs)
  have n': "hasDirtyNodes (heap stateDirtyNodeCurrent 1)"
    by (simp add: state_defs example_defs hasDirtyNodes_def)
  have l': "undoStack stateDirtyNodeCurrent = [0, 3]" "redoStack stateDirtyNodeCurrent = []"
    "setViewModelCalls stateDirtyNodeCurrent = []"
    by (simp_all add: state_defs)
  from undo_with_current [OF u' c'] n' l'
  have kept: "\<exists>s'. undo stateDirtyNodeCurrent = Inr s'
        \<and> redoStack s' = [1] \<and> undoStack s' = [0] \<and> current s' = Some 3
        \<and> isDirty (heap s' 3) \<and> setViewModelCalls s' = [3]"
    by (simp add: Let_def isDirty_def markDirty_def)
  from u c skipped u' c' kept show ?thesis by blast
qed

text \<open>
  Claim C10. In a state with no current view model and a non-empty undo stack, \<open>undo\<close>
  succeeds, removes exactly the top of the undo stack, makes it current, marks it dirty
  in the store and hands it to \<open>editor.setViewModel\<close>; the redo stack is as before.
\<close>

theorem undo_without_current:
  assumes "current s = None" and "undoStack s \<noteq> []"
  shows "undo s =
    Inr (s\<lparr>undoStack := butlast (undoStack s),
           current := Some (last (undoStack s)),
           heap := (heap s)(last (undoStack s) := markDirty (heap s (last (undoStack s)))),
           setViewModelCalls := setViewModelCalls s @ [last (undoStack s)]\<rparr>)"
proof -
  obtain us t where snoc: "undoStack s = us @ [t]"
    using assms(2) by (cases "undoStack s" rule: rev_cases) auto
  from undo_no_current [OF assms(1) snoc] snoc show ?thesis by simp
qed

theorem undo_without_current_witness:
  "current stateNoCurrent = None \<and> undoStack stateNoCurrent \<noteq> []
   \<and> (\<exists>s'. undo stateNoCurrent = Inr s'
        \<and> undoStack s' = [0] \<and> current s' = Some 3 \<and> redoStack s' = [1]
        \<and> isDirty (heap s' 3) \<and> setViewModelCalls s' = [3])"
proof -
  have c: "current stateNoCurrent = None" by (simp add: state_defs)
  have u: "undoStack stateNoCurrent \<noteq> []" by (simp add: state_defs)
  have l: "undoStack stateNoCurrent = [0, 3]" "redoStack stateNoCurrent = [1]"
    "setViewModelCalls stateNoCurrent = []"
    by (simp_all add: state_defs)
  from undo_without_current [OF c u] l c show ?thesis
    by (simp add: isDirty_def markDirty_def)
qed

subsection \<open>Record, undo, redo\<close>

lemma getMergeAction_NO_MERGE_keeps_set:
  "fst (getMergeAction h wh p n) = NO_MERGE \<Longrightarrow> snd (getMergeAction h wh p n) = wh"
  by (auto simp: getMergeAction_def Let_def split: if_splits option.splits)

lemma applyChange_commit_state:
  assumes "Some viewModel \<noteq> current s"
    and "\<not> isDirty (heap s viewModel)"
    and "fst (getMergeAction (heap s) (viewModelsWithoutHistory s) (current s) viewModel)
           = NO_MERGE"
  shows "applyChange s viewModel =
           s\<lparr>redoStack := [],
             undoStack := (case current s of
                             None \<Rightarrow> undoStack s
                           | Some c \<Rightarrow> undoStack s @ [c]),
             current := Some viewModel\<rparr>"
  using assms getMergeAction_NO_MERGE_keeps_set [OF assms(3)]
  by (auto simp: applyChange_def push_def split: prod.splits option.splits)

text \<open>
  Claim C2. From the initial state, record two different view models \<open>a\<close> and \<open>b\<close>, both
  not dirty and both classified \<open>NO_MERGE\<close>: the undo stack is \<open>[a]\<close> and \<open>b\<close> is current.
  \<open>undo\<close> then makes \<open>a\<close> current with redo stack \<open>[b]\<close> and an empty undo stack, and
  \<open>redo\<close> after that makes \<open>b\<close> current with an empty redo stack and undo stack \<open>[a]\<close>.
\<close>

theorem record_undo_redo_round_trip:
  assumes "a \<noteq> b"
    and "\<not> isDirty (h a)" and "\<not> isDirty (h b)"
    and "fst (getMergeAction h wh None a) = NO_MERGE"
    and "fst (getMergeAction h wh (Some a) b) = NO_MERGE"
  shows "\<exists>s2 s3 s4.
           run (initialState h wh) [RecordUpdate a, RecordUpdate b] = Inr s2
           \<and> undoStack s2 = [a] \<and> current s2 = Some b \<and> redoStack s2 = []
           \<and> undo s2 = Inr s3
           \<and> current s3 = Some a \<and> redoStack s3 = [b] \<and> undoStack s3 = []
           \<and> redo s3 = Inr s4
           \<and> current s4 = Some b \<and> redoStack s4 = [] \<and> undoStack s4 = [a]"
proof -
  let ?s0 = "initialState h wh"
  define s1 where "s1 = applyChange ?s0 a"
  define s2 where "s2 = applyChange s1 b"
  have s1: "s1 = ?s0\<lparr>current := Some a\<rparr>"
    unfolding s1_def
    using applyChange_commit_state [of a ?s0] assms(2,4) by (simp add: initialState_def)
  have s2: "s2 = ?s0\<lparr>undoStack := [a], current := Some b\<rparr>"
    unfolding s2_def
    using applyChange_commit_state [of b s1] assms(1,3,5) by (simp add: s1 initialState_def)
  have run: "run ?s0 [RecordUpdate a, RecordUpdate b] = Inr s2"
    by (simp add: s1_def s2_def)
  have fields2: "undoStack s2 = [] @ [a]" "current s2 = Some b" "redoStack s2 = []"
    by (simp_all add: s2 initialState_def)
  define s3 where
    "s3 = s2\<lparr>redoStack := redoStack s2 @ [b], undoStack := [], current := Some a,
             heap := (heap s2)(a := markDirty (heap s2 a)),
             setViewModelCalls := setViewModelCalls s2 @ [a]\<rparr>"
  have undo: "undo s2 = Inr s3"
    unfolding s3_def by (rule undo_plain [OF fields2(2) fields2(1)]) simp
  have fields3: "current s3 = Some a" "redoStack s3 = [] @ [b]" "undoStack s3 = []"
    by (simp_all add: s3_def fields2)
  define s4 where
    "s4 = s3\<lparr>undoStack := (case current s3 of None \<Rightarrow> undoStack s3
                           | Some c \<Rightarrow> undoStack s3 @ [c]),
             redoStack := [], current := Some b,
             heap := (heap s3)(b := markDirty (heap s3 b)),
             setViewModelCalls := setViewModelCalls s3 @ [b]\<rparr>"
  have redo: "redo s3 = Inr s4"
    unfolding s4_def by (rule redo_nonempty [OF fields3(2)])
  have fields4: "current s4 = Some b" "redoStack s4 = []" "undoStack s4 = [a]"
    by (simp_all add: s4_def fields3)
  from run fields2 undo fields3 redo fields4 show ?thesis by auto
qed

text \<open>The text view model 0 and then the view model 3, whose dirty node is a block.\<close>

theorem record_undo_redo_round_trip_witness:
  "(0::vm_ref) \<noteq> 3 \<and> \<not> isDirty (exampleHeap 0) \<and> \<not> isDirty (exampleHeap 3)
   \<and> fst (getMergeAction exampleHeap {} None 0) = NO_MERGE
   \<and> fst (getMergeAction exampleHeap {} (Some 0) 3) = NO_MERGE
   \<and> (\<exists>s2 s3 s4.
         run (initialState exampleHeap {}) [RecordUpdate 0, RecordUpdate 3] = Inr s2
         \<and> undoStack s2 = [0] \<and> current s2 = Some 3 \<and> redoStack s2 = []
         \<and> undo s2 = Inr s3
         \<and> current s3 = Some 0 \<and> redoStack s3 = [3] \<and> undoStack s3 = []
         \<and> redo s3 = Inr s4
         \<and> current s4 = Some 3 \<and> redoStack s4 = [] \<and> undoStack s4 = [0])"
proof -
  have ne: "(0::vm_ref) \<noteq> 3" by simp
  have d0: "\<not> isDirty (exampleHeap 0)" by (simp add: example_defs isDirty_def)
  have d3: "\<not> isDirty (exampleHeap 3)" by (simp add: example_defs isDirty_def)
  have m0: "fst (getMergeAction exampleHeap {} None 0) = NO_MERGE"
    by (simp add: getMergeAction_def)
  have m3: "fst (getMergeAction exampleHeap {} (Some 0) 3) = NO_MERGE"
    by (simp add: getMergeAction_def example_defs hasDirtyNodes_def getDirtyNodes_def)
  from record_undo_redo_round_trip [OF ne d0 d3 m0 m3] ne d0 d3 m0 m3
  show ?thesis by blast
qed

subsection \<open>The current view model and the stacks\<close>

lemma separated_initialState: "separated (initialState h wh)"
  by (simp add: separated_def initialState_def)

lemma separated_applyChange:
  assumes "separated s" and "admissible s (RecordUpdate viewModel)"
  shows "separated (applyChange s viewModel)"
  using assms
  by (auto simp: separated_def applyChange_def push_def split: prod.splits option.splits)

lemma separated_setHistoryState:
  assumes "admissible s (SetStacks u r)"
  shows "separated (setHistoryState s u r)"
  using assms by (auto simp: separated_def setHistoryState_def split: option.splits)

lemma separated_undo:
  assumes "separated s" and "undo s = Inr s'"
  shows "separated s'"
proof (cases "undoStack s" rule: rev_cases)
  case Nil
  with assms show ?thesis by (simp add: undo_empty)
next
  case (snoc us t)
  show ?thesis
  proof (cases "current s")
    case None
    from undo_no_current [OF None snoc] assms snoc None show ?thesis
      by (auto simp: separated_def)
  next
    case (Some c)
    show ?thesis
    proof (cases "us = [] \<or> hasDirtyNodes (heap s c)")
      case True
      from undo_plain [OF Some snoc True] assms snoc Some show ?thesis
        by (auto simp: separated_def)
    next
      case False
      then obtain us' v where us: "us = us' @ [v]" by (cases us rule: rev_cases) auto
      from snoc us have u2: "undoStack s = us' @ [v, t]" by simp
      from False have clean: "\<not> hasDirtyNodes (heap s c)" by simp
      from undo_skip [OF Some u2 clean] assms u2 Some show ?thesis
        by (auto simp: separated_def)
    qed
  qed
qed

lemma separated_redo:
  assumes "separated s" and "redo s = Inr s'"
  shows "separated s'"
proof (cases "redoStack s" rule: rev_cases)
  case Nil
  with assms show ?thesis by (simp add: redo_empty)
next
  case (snoc rs v)
  from redo_nonempty [OF snoc] assms snoc show ?thesis
    by (auto simp: separated_def split: option.splits)
qed

lemma separated_step:
  assumes "separated s" and "admissible s x" and "step s x = Inr s'"
  shows "separated s'"
proof (cases x)
  case (RecordUpdate viewModel)
  with assms separated_applyChange [of s viewModel] show ?thesis by auto
next
  case Undo
  with assms separated_undo [of s s'] show ?thesis by simp
next
  case Redo
  with assms separated_redo [of s s'] show ?thesis by simp
next
  case (SetStacks u r)
  with assms separated_setHistoryState [of s u r] show ?thesis by auto
qed

lemma separated_run:
  assumes "separated s" and "admissible_run s xs" and "run s xs = Inr s'"
  shows "separated s'"
  using assms
proof (induction xs arbitrary: s)
  case Nil
  then show ?case by simp
next
  case (Cons x xs)
  obtain s1 where s1: "step s x = Inr s1" using step_total by blast
  with Cons.prems have "separated s1" "admissible_run s1 xs" "run s1 xs = Inr s'"
    by (auto intro: separated_step)
  then show ?case by (rule Cons.IH)
qed

lemmas run_defs =
  applyChange_def undo_def redo_def setHistoryState_def getMergeAction_def pop_def push_def
  isDirty_def hasDirtyNodes_def getDirtyNodes_def Let_def

text \<open>
  Claim C9, as stated: after any sequence of operations from the initial state the
  current view model is in neither stack. It fails in four ways: \<open>setHistoryState\<close> may
  be given the current view model; an update may bring a view model that is already in a
  stack; \<open>setHistoryState\<close> may be given an array with one view model twice, or two arrays
  with a common view model, and \<open>undo\<close> then makes one copy current.
\<close>

theorem current_in_a_stack:
  "map_sum id current (run (initialState exampleHeap {}) [RecordUpdate 0, SetStacks [0] []])
     = Inr (Some 0)
   \<and> map_sum id undoStack
       (run (initialState exampleHeap {}) [RecordUpdate 0, SetStacks [0] []]) = Inr [0]
   \<and> map_sum id current
       (run (initialState exampleHeap {}) [RecordUpdate 0, RecordUpdate 3, RecordUpdate 0])
       = Inr (Some 0)
   \<and> map_sum id undoStack
       (run (initialState exampleHeap {}) [RecordUpdate 0, RecordUpdate 3, RecordUpdate 0])
       = Inr [0]
   \<and> map_sum id current (run (initialState exampleHeap {}) [SetStacks [0, 0] [], Undo])
       = Inr (Some 0)
   \<and> map_sum id undoStack (run (initialState exampleHeap {}) [SetStacks [0, 0] [], Undo])
       = Inr [0]
   \<and> map_sum id current (run (initialState exampleHeap {}) [SetStacks [0] [0], Undo])
       = Inr (Some 0)
   \<and> map_sum id redoStack (run (initialState exampleHeap {}) [SetStacks [0] [0], Undo])
       = Inr [0]"
  by (simp add: run_defs initialState_def example_defs)

text \<open>
  Claim C9, amended: after a sequence of operations from the initial state in which
  every update brings a view model that is in neither stack and every \<open>setHistoryState\<close>
  is given arrays without a repeated or common element and without the current view
  model, the current view model is in neither stack.
\<close>

theorem current_not_in_stacks:
  assumes "admissible_run (initialState h wh) xs"
    and "run (initialState h wh) xs = Inr s"
    and "current s = Some c"
  shows "c \<notin> set (undoStack s) \<and> c \<notin> set (redoStack s)"
proof -
  have "separated s"
    using separated_initialState assms(1,2) by (rule separated_run)
  with assms(3) show ?thesis by (simp add: separated_def)
qed

theorem current_not_in_stacks_witness:
  "admissible_run (initialState exampleHeap {})
     [RecordUpdate 0, RecordUpdate 3, Undo, SetStacks [1] [3], Redo]
   \<and> (\<exists>s. run (initialState exampleHeap {})
             [RecordUpdate 0, RecordUpdate 3, Undo, SetStacks [1] [3], Redo] = Inr s
          \<and> current s = Some 3 \<and> undoStack s = [1, 0] \<and> redoStack s = []
          \<and> 3 \<notin> set (undoStack s) \<and> 3 \<notin> set (redoStack s))"
proof -
  let ?xs = "[RecordUpdate 0, RecordUpdate 3, Undo, SetStacks [1] [3], Redo]"
  have a: "admissible_run (initialState exampleHeap {}) ?xs"
    by (simp add: run_defs initialState_def example_defs)
  obtain s where r: "run (initialState exampleHeap {}) ?xs = Inr s"
    using run_total by blast
  have c: "current s = Some 3" and u: "undoStack s = [1, 0]" and e: "redoStack s = []"
    using r [symmetric] by (simp_all add: run_defs initialState_def example_defs)
  from current_not_in_stacks [OF a r c] a r c u e show ?thesis by blast
qed

end
